theory Spec2Isabelle
  imports Main
begin

section \<open>Data model\<close>

text \<open>
  The server (\<^verbatim>\<open>src/server.js\<close>) keeps one process-wide object \<^verbatim>\<open>sessions\<close> whose
  own properties bind a session code to a session object. Player and session objects
  are the literals built in the handlers:
  \<^verbatim>\<open>{ id, nickname, score, isHost }\<close> and
  \<^verbatim>\<open>{ code, name, hostPlayerId, players, createdAt, isActive }\<close>.
  Identifiers, codes and nicknames are strings. A score is stored and sent back but never
  computed with, so it is an integer here. \<^verbatim>\<open>createdAt\<close> is written by
  \<^verbatim>\<open>new Date().toISOString()\<close> and read by \<^verbatim>\<open>new Date(s.createdAt).getTime()\<close>; the
  pair is exact to the millisecond, so the field holds milliseconds since the epoch.
\<close>

record player =
  id_p :: string
  nickname :: string
  score :: int
  isHost :: bool

record session =
  code :: string
  name :: string
  hostPlayerId :: string
  players :: "player list"
  createdAt :: int
  isActive :: bool

text \<open>
  Session objects are mutated in place (\<^verbatim>\<open>session.players.push\<close>,
  \<^verbatim>\<open>session.isActive = true\<close>), and \<^verbatim>\<open>sessions[code] = session\<close> binds a code to a new
  object without touching the object bound before. The state therefore has a heap of
  session objects in allocation order (a reference is an index; a new object is appended)
  and the own properties of \<^verbatim>\<open>sessions\<close> as a map from codes to references.
  \<^verbatim>\<open>socket.data\<close> of every connection is part of the state as well: \<open>None\<close> until a
  handler assigns \<^verbatim>\<open>{ code, playerId }\<close>.
\<close>

record server =
  heap :: "session list"
  sessions :: "string \<rightharpoonup> nat"
  socket_data :: "nat \<Rightarrow> (string \<times> string) option"

text \<open>
  \<^verbatim>\<open>sessions\<close> is a plain object (\<^verbatim>\<open>{}\<close>, the result of \<^verbatim>\<open>JSON.parse\<close>, then of
  \<^verbatim>\<open>Object.fromEntries\<close>), so a property read \<^verbatim>\<open>sessions[code]\<close> that finds no own
  property continues in \<^verbatim>\<open>Object.prototype\<close>. For the keys below it yields a built-in
  function (or \<^verbatim>\<open>Object.prototype\<close> itself for \<^verbatim>\<open>__proto__\<close>): a truthy value with no
  \<^verbatim>\<open>isActive\<close>, \<^verbatim>\<open>players\<close> or \<^verbatim>\<open>hostPlayerId\<close> property.
\<close>

definition objectPrototypeKeys :: "string list" where
  "objectPrototypeKeys =
     [''constructor'', ''__proto__'', ''hasOwnProperty'', ''isPrototypeOf'',
      ''propertyIsEnumerable'', ''toLocaleString'', ''toString'', ''valueOf'',
      ''__defineGetter__'', ''__defineSetter__'', ''__lookupGetter__'',
      ''__lookupSetter__'']"

datatype lookup = Missing | Inherited | Own nat

text \<open>
  \<open>lookup st c\<close> is the value of \<^verbatim>\<open>sessions[c]\<close>: \<open>Own a\<close> for the session object at
  reference \<open>a\<close>, \<open>Inherited\<close> for a member of \<^verbatim>\<open>Object.prototype\<close>, \<open>Missing\<close> for
  \<^verbatim>\<open>undefined\<close>. A reference always denotes an allocated object; the bound check only
  keeps the function total on states no run can reach.
\<close>

definition lookup :: "server \<Rightarrow> string \<Rightarrow> lookup" where
  "lookup st c =
     (case sessions st c of
        Some a \<Rightarrow> (if a < length (heap st) then Own a else Missing)
      | None \<Rightarrow> (if c \<in> set objectPrototypeKeys then Inherited else Missing))"

text \<open>The session record bound to a code, if any: what \<^verbatim>\<open>JSON.stringify(sessions)\<close> shows.\<close>

definition session_at :: "server \<Rightarrow> string \<Rightarrow> session option" where
  "session_at st c =
     (case sessions st c of
        Some a \<Rightarrow> (if a < length (heap st) then Some (heap st ! a) else None)
      | None \<Rightarrow> None)"

text \<open>\<^verbatim>\<open>sessions[code] = session\<close> for a newly built session object.\<close>

definition bind_new :: "string \<Rightarrow> session \<Rightarrow> server \<Rightarrow> server" where
  "bind_new c s st = st\<lparr>heap := heap st @ [s], sessions := (sessions st)(c \<mapsto> length (heap st))\<rparr>"

text \<open>An assignment to a field of the session object at reference \<open>a\<close>.\<close>

definition modify :: "nat \<Rightarrow> (session \<Rightarrow> session) \<Rightarrow> server \<Rightarrow> server" where
  "modify a f st = st\<lparr>heap := (heap st)[a := f (heap st ! a)]\<rparr>"

text \<open>\<^verbatim>\<open>socket.data = { code, playerId }\<close>.\<close>

definition set_data :: "nat \<Rightarrow> string \<Rightarrow> string \<Rightarrow> server \<Rightarrow> server" where
  "set_data sock c pId st = st\<lparr>socket_data := (socket_data st)(sock := Some (c, pId))\<rparr>"

text \<open>
  \<^verbatim>\<open>players.find(p => p.id === playerId)\<close> returns the first matching player object
  (\<^const>\<open>find\<close>), and the assignments that follow change that object inside the array.
\<close>

fun modify_found :: "(player \<Rightarrow> bool) \<Rightarrow> (player \<Rightarrow> player) \<Rightarrow> player list \<Rightarrow> player list" where
  "modify_found P f [] = []"
| "modify_found P f (p # ps) = (if P p then f p # ps else p # modify_found P f ps)"

section \<open>Effects\<close>

text \<open>
  What a handler does besides changing the state is a list of effects in program order.
  Messages and the saved snapshot are serialised when the call is made, so they carry
  values. A handler that runs into a \<^verbatim>\<open>TypeError\<close> (a property read on \<^verbatim>\<open>undefined\<close>)
  ends with \<open>Thrown\<close>: nothing catches the exception. Console output is left out;
  the exception that evaluating its arguments can raise is kept.
\<close>

datatype jsvalue = Undefined | InheritedObject | SessionObject session

datatype message =
    CreateSessionResponse session player
  | JoinSessionResponse session player
  | RejoinSessionResponse session player
  | ErrorMessage string
  | SessionUpdate jsvalue
  | SessionStarted

datatype effect =
    SaveSessions "string \<Rightarrow> session option"
  | SocketJoin nat string
  | SocketLeave nat string
  | SocketEmit nat message
  | RoomEmit "string option" message

datatype completion = Returned | Thrown

type_synonym result = "server \<times> effect list \<times> completion"

text \<open>
  A code read from an unset \<^verbatim>\<open>socket.data\<close> is \<^verbatim>\<open>undefined\<close> (\<open>None\<close>); as a property
  key it is the string \<^verbatim>\<open>"undefined"\<close>.
\<close>

definition toPropertyKey :: "string option \<Rightarrow> string" where
  "toPropertyKey c = (case c of None \<Rightarrow> ''undefined'' | Some k \<Rightarrow> k)"

definition value_of :: "server \<Rightarrow> lookup \<Rightarrow> jsvalue" where
  "value_of st v =
     (case v of Missing \<Rightarrow> Undefined | Inherited \<Rightarrow> InheritedObject
      | Own a \<Rightarrow> SessionObject (heap st ! a))"

text \<open>
  \<^verbatim>\<open>broadcast(code)\<close>: save the whole store, emit \<^verbatim>\<open>sessionUpdate\<close> with
  \<^verbatim>\<open>sessions[code]\<close> to the room, then log \<^verbatim>\<open>sessions[code].players.length\<close>, which
  throws unless \<^verbatim>\<open>sessions[code]\<close> is a session object.
\<close>

definition broadcast :: "string option \<Rightarrow> server \<Rightarrow> effect list \<times> completion" where
  "broadcast c st =
     (let v = lookup st (toPropertyKey c) in
      ([SaveSessions (session_at st), RoomEmit c (SessionUpdate (value_of st v))],
       (case v of Own a \<Rightarrow> Returned | _ \<Rightarrow> Thrown)))"

section \<open>Identifier generation\<close>

text \<open>
  \<^verbatim>\<open>nanoid\<close> is a library: the identifiers it returns are parameters of the handlers.
  It draws from the alphabet \<^verbatim>\<open>A-Za-z0-9_-\<close>, and \<^verbatim>\<open>nanoid(6)\<close> returns six characters.
  \<^verbatim>\<open>toUpperCase\<close> is modelled on ASCII, which covers that alphabet.
\<close>

definition urlAlphabet :: string where
  "urlAlphabet = ''useandom-26T198340PX75pxJACKVERYMINDBUSHWOLF_GQZbfghjklqvwyzrict''"

definition nanoid_returns :: "nat \<Rightarrow> string \<Rightarrow> bool" where
  "nanoid_returns n s \<longleftrightarrow> length s = n \<and> set s \<subseteq> set urlAlphabet"

definition isLower :: "char \<Rightarrow> bool" where
  "isLower ch \<longleftrightarrow> 97 \<le> (of_char ch :: nat) \<and> (of_char ch :: nat) \<le> 122"

definition toUpperCase_char :: "char \<Rightarrow> char" where
  "toUpperCase_char ch = (if isLower ch then char_of ((of_char ch :: nat) - 32) else ch)"

definition toUpperCase :: "string \<Rightarrow> string" where
  "toUpperCase s = map toUpperCase_char s"

section \<open>Socket handlers\<close>

definition error_text :: string where
  "error_text = ''Session not found or already started''"

text \<open>
  \<^verbatim>\<open>createSession\<close>. \<open>raw\<close> is the value of \<^verbatim>\<open>nanoid(6)\<close>, \<open>newId\<close> of \<^verbatim>\<open>nanoid()\<close>,
  \<open>now\<close> of \<^verbatim>\<open>new Date()\<close>.
\<close>

definition createSession ::
  "nat \<Rightarrow> string \<Rightarrow> string \<Rightarrow> string \<Rightarrow> string \<Rightarrow> int \<Rightarrow> server \<Rightarrow> result" where
  "createSession sock nick sessionName raw newId now st =
     (let c = toUpperCase raw;
          playerId = newId;
          pl = \<lparr>id_p = playerId, nickname = nick, score = 0, isHost = True\<rparr>;
          s = \<lparr>code = c, name = sessionName, hostPlayerId = playerId, players = [pl],
               createdAt = now, isActive = False\<rparr>;
          st1 = bind_new c s st;
          st2 = set_data sock c playerId st1;
          (out, done) = broadcast (Some c) st2
      in (st2, [SocketJoin sock c, SocketEmit sock (CreateSessionResponse s pl)] @ out, done))"

text \<open>
  \<^verbatim>\<open>joinSession\<close>. On an inherited value \<^verbatim>\<open>!session || session.isActive\<close> is false and
  \<^verbatim>\<open>session.players.push\<close> throws.
\<close>

definition joinSession :: "nat \<Rightarrow> string \<Rightarrow> string \<Rightarrow> string \<Rightarrow> server \<Rightarrow> result" where
  "joinSession sock c nick newId st =
     (case lookup st c of
        Missing \<Rightarrow> (st, [SocketEmit sock (ErrorMessage error_text)], Returned)
      | Inherited \<Rightarrow> (st, [], Thrown)
      | Own a \<Rightarrow>
          if isActive (heap st ! a)
          then (st, [SocketEmit sock (ErrorMessage error_text)], Returned)
          else
            let playerId = newId;
                pl = \<lparr>id_p = playerId, nickname = nick, score = 0, isHost = False\<rparr>;
                st1 = modify a (\<lambda>s. s\<lparr>players := players s @ [pl]\<rparr>) st;
                st2 = set_data sock c playerId st1;
                (out, done) = broadcast (Some c) st2
            in (st2, [SocketJoin sock c,
                      SocketEmit sock (JoinSessionResponse (heap st2 ! a) pl)] @ out, done))"

text \<open>
  \<^verbatim>\<open>rejoinSession\<close>. On an inherited value \<^verbatim>\<open>session.players.find\<close> throws.
\<close>

definition rejoinSession :: "nat \<Rightarrow> string \<Rightarrow> string \<Rightarrow> string \<Rightarrow> server \<Rightarrow> result" where
  "rejoinSession sock c playerId nick st =
     (case lookup st c of
        Missing \<Rightarrow> (st, [], Returned)
      | Inherited \<Rightarrow> (st, [], Thrown)
      | Own a \<Rightarrow>
          let s = heap st ! a;
              host = (playerId = hostPlayerId s);
              (pl, st1) =
                (case find (\<lambda>p. id_p p = playerId) (players s) of
                   None \<Rightarrow>
                     (let pl = \<lparr>id_p = playerId, nickname = nick, score = 0, isHost = host\<rparr>
                      in (pl, modify a (\<lambda>s. s\<lparr>players := players s @ [pl]\<rparr>) st))
                 | Some p \<Rightarrow>
                     (p\<lparr>isHost := host, nickname := nick\<rparr>,
                      modify a (\<lambda>s. s\<lparr>players :=
                        modify_found (\<lambda>p. id_p p = playerId)
                          (\<lambda>p. p\<lparr>isHost := host, nickname := nick\<rparr>) (players s)\<rparr>) st));
              st2 = set_data sock c playerId st1;
              (out, done) = broadcast (Some c) st2
          in (st2, [SaveSessions (session_at st1), SocketJoin sock c,
                    SocketEmit sock (RejoinSessionResponse (heap st2 ! a) pl)] @ out, done))"

text \<open>
  \<^verbatim>\<open>startSession\<close>. On an inherited value \<^verbatim>\<open>session.isActive\<close> is \<^verbatim>\<open>undefined\<close>, the
  guard does not return, the flag is written to the inherited object (no session changes;
  the run ends with the exception below, so the written flag is never read)
  and \<^verbatim>\<open>broadcast\<close> throws after its save and its emit. \<open>broadcast_started\<close> is the
  tail of the handler: \<^verbatim>\<open>broadcast(code)\<close>, then \<^verbatim>\<open>sessionStarted\<close> to the room.
\<close>

definition broadcast_started :: "string \<Rightarrow> server \<Rightarrow> result" where
  "broadcast_started c st =
     (let (out, done) = broadcast (Some c) st
      in (case done of
            Thrown \<Rightarrow> (st, out, Thrown)
          | Returned \<Rightarrow> (st, out @ [RoomEmit (Some c) SessionStarted], Returned)))"

definition startSession :: "nat \<Rightarrow> string \<Rightarrow> server \<Rightarrow> result" where
  "startSession sock c st =
     (case lookup st c of
        Missing \<Rightarrow> (st, [], Returned)
      | Inherited \<Rightarrow> broadcast_started c st
      | Own a \<Rightarrow>
          if isActive (heap st ! a) then (st, [], Returned)
          else broadcast_started c (modify a (\<lambda>s. s\<lparr>isActive := True\<rparr>) st))"

text \<open>
  \<^verbatim>\<open>updateScore\<close>. On an inherited value \<^verbatim>\<open>!session.isActive\<close> is true: the handler
  returns.
\<close>

definition updateScore :: "nat \<Rightarrow> string \<Rightarrow> string \<Rightarrow> int \<Rightarrow> server \<Rightarrow> result" where
  "updateScore sock c playerId v st =
     (case lookup st c of
        Missing \<Rightarrow> (st, [], Returned)
      | Inherited \<Rightarrow> (st, [], Returned)
      | Own a \<Rightarrow>
          if \<not> isActive (heap st ! a) then (st, [], Returned)
          else
            (case find (\<lambda>p. id_p p = playerId) (players (heap st ! a)) of
               None \<Rightarrow> (st, [], Returned)
             | Some p \<Rightarrow>
                 let st1 = modify a (\<lambda>s. s\<lparr>players :=
                             modify_found (\<lambda>p. id_p p = playerId) (\<lambda>p. p\<lparr>score := v\<rparr>)
                               (players s)\<rparr>) st;
                     (out, done) = broadcast (Some c) st1
                 in (st1, out, done)))"

text \<open>
  \<^verbatim>\<open>leaveSession\<close>. On an inherited value \<^verbatim>\<open>session.players.filter\<close> throws.
\<close>

definition leaveSession :: "nat \<Rightarrow> string \<Rightarrow> string \<Rightarrow> server \<Rightarrow> result" where
  "leaveSession sock c playerId st =
     (case lookup st c of
        Missing \<Rightarrow> (st, [], Returned)
      | Inherited \<Rightarrow> (st, [], Thrown)
      | Own a \<Rightarrow>
          let st1 = modify a (\<lambda>s. s\<lparr>players := filter (\<lambda>p. id_p p \<noteq> playerId) (players s)\<rparr>) st;
              (out, done) = broadcast (Some c) st1
          in (st1, SocketLeave sock c # out, done))"

text \<open>
  \<^verbatim>\<open>disconnect\<close>. With \<^verbatim>\<open>socket.data\<close> unset both \<^verbatim>\<open>code\<close> and \<^verbatim>\<open>playerId\<close> are
  \<^verbatim>\<open>undefined\<close>: the store is read at the key \<^verbatim>\<open>"undefined"\<close>, \<^verbatim>\<open>undefined\<close> differs
  from every host id and from every player id, so the filter keeps every player (on an
  inherited value both sides of \<^verbatim>\<open>!==\<close> are \<^verbatim>\<open>undefined\<close> and the filter is skipped).
  With an inherited value \<^verbatim>\<open>playerId !== session.hostPlayerId\<close> holds for a string
  \<^verbatim>\<open>playerId\<close> and \<^verbatim>\<open>session.players.filter\<close> throws.
\<close>

definition disconnect :: "nat \<Rightarrow> server \<Rightarrow> result" where
  "disconnect sock st =
     (case socket_data st sock of
        None \<Rightarrow>
          (case lookup st (toPropertyKey None) of
             Missing \<Rightarrow> (st, [], Returned)
           | Inherited \<Rightarrow> (let (out, done) = broadcast None st in (st, out, done))
           | Own a \<Rightarrow>
               (let st1 = modify a (\<lambda>s. s\<lparr>players := filter (\<lambda>p. True) (players s)\<rparr>) st;
                    (out, done) = broadcast None st1
                in (st1, out, done)))
      | Some (c, playerId) \<Rightarrow>
          (case lookup st c of
             Missing \<Rightarrow> (st, [], Returned)
           | Inherited \<Rightarrow> (st, [], Thrown)
           | Own a \<Rightarrow>
               let st1 =
                     (if playerId \<noteq> hostPlayerId (heap st ! a)
                      then modify a (\<lambda>s. s\<lparr>players :=
                             filter (\<lambda>p. id_p p \<noteq> playerId) (players s)\<rparr>) st
                      else st);
                   (out, done) = broadcast (Some c) st1
               in (st1, out, done)))"

section \<open>Events and runs\<close>

text \<open>
  One inbound event, with the socket it arrives on and the values the handler draws from
  \<^verbatim>\<open>nanoid\<close> and the clock. Events are handled one after the other; an uncaught
  exception ends the run.
\<close>

datatype event =
    CreateSession nat string string string string int
  | JoinSession nat string string string
  | RejoinSession nat string string string
  | StartSession nat string
  | UpdateScore nat string string int
  | LeaveSession nat string string
  | Disconnect nat

fun handle :: "event \<Rightarrow> server \<Rightarrow> result" where
  "handle (CreateSession sock nick sessionName raw newId now) st =
     createSession sock nick sessionName raw newId now st"
| "handle (JoinSession sock c nick newId) st = joinSession sock c nick newId st"
| "handle (RejoinSession sock c playerId nick) st = rejoinSession sock c playerId nick st"
| "handle (StartSession sock c) st = startSession sock c st"
| "handle (UpdateScore sock c playerId v) st = updateScore sock c playerId v st"
| "handle (LeaveSession sock c playerId) st = leaveSession sock c playerId st"
| "handle (Disconnect sock) st = disconnect sock st"

fun run :: "event list \<Rightarrow> server \<Rightarrow> result" where
  "run [] st = (st, [], Returned)"
| "run (e # es) st =
     (case handle e st of
        (st1, out, Thrown) \<Rightarrow> (st1, out, Thrown)
      | (st1, out, Returned) \<Rightarrow>
          (case run es st1 of (st2, out2, done) \<Rightarrow> (st2, out @ out2, done)))"

section \<open>Start-up: load and prune\<close>

text \<open>
  \<^verbatim>\<open>loadSessions\<close> (\<^verbatim>\<open>fileStore.js\<close>) reads and parses \<^verbatim>\<open>sessions.json\<close>; if either
  step throws (file missing, text not JSON) it returns \<^verbatim>\<open>{}\<close>. The file is written by
  \<^verbatim>\<open>saveSessions\<close> only, so a text that parses is an object of session records, given
  here as its key/value pairs in text order (\<^verbatim>\<open>JSON.parse\<close> lets a later duplicate key
  win). Other JSON documents are outside this model.
\<close>

datatype store_file = Unreadable | Parsed "(string \<times> session) list"

definition empty_server :: server where
  "empty_server = \<lparr>heap = [], sessions = Map.empty, socket_data = (\<lambda>sock. None)\<rparr>"

fun parse_entries :: "(string \<times> session) list \<Rightarrow> server \<Rightarrow> server" where
  "parse_entries [] st = st"
| "parse_entries ((k, s) # es) st = parse_entries es (bind_new k s st)"

definition loadSessions :: "store_file \<Rightarrow> server" where
  "loadSessions f =
     (case f of Unreadable \<Rightarrow> empty_server | Parsed es \<Rightarrow> parse_entries es empty_server)"

definition TTL :: int where
  "TTL = 24 * 60 * 60 * 1000"

text \<open>
  The prune at start-up keeps the entries with \<^verbatim>\<open>Date.now() - createdAt < TTL\<close>;
  \<^verbatim>\<open>Object.fromEntries\<close> rebinds the kept codes to the same session objects. The clock
  readings taken during the one filter pass are one instant \<open>now\<close>.
\<close>

definition prune :: "int \<Rightarrow> server \<Rightarrow> server" where
  "prune now st =
     st\<lparr>sessions := (\<lambda>k. case sessions st k of
                             None \<Rightarrow> None
                           | Some a \<Rightarrow> (if now - createdAt (heap st ! a) < TTL then Some a else None))\<rparr>"

definition startup :: "int \<Rightarrow> store_file \<Rightarrow> server" where
  "startup now f = prune now (loadSessions f)"

section \<open>Example states\<close>

text \<open>
  The states of the end-to-end example: Ann hosts \<^verbatim>\<open>Game1\<close> under the code
  \<^verbatim>\<open>ABC123\<close>, Bob has joined. Socket 1 is Ann's connection, socket 2 is Bob's.
\<close>

definition ann :: player where
  "ann = \<lparr>id_p = ''pAnn'', nickname = ''Ann'', score = 0, isHost = True\<rparr>"

definition bob :: player where
  "bob = \<lparr>id_p = ''pBob'', nickname = ''Bob'', score = 0, isHost = False\<rparr>"

definition game1 :: session where
  "game1 = \<lparr>code = ''ABC123'', name = ''Game1'', hostPlayerId = ''pAnn'', players = [ann, bob],
            createdAt = 1000, isActive = False\<rparr>"

definition lobby_server :: server where
  "lobby_server =
     \<lparr>heap = [game1], sessions = [''ABC123'' \<mapsto> 0],
      socket_data = (\<lambda>sock. if sock = 1 then Some (''ABC123'', ''pAnn'')
                            else if sock = 2 then Some (''ABC123'', ''pBob'') else None)\<rparr>"

definition active_server :: server where
  "active_server = lobby_server\<lparr>heap := [game1\<lparr>isActive := True\<rparr>]\<rparr>"

text \<open>A store file with one session created 25 hours and one created 23 hours before \<open>now\<close>.\<close>

definition hour :: int where
  "hour = 60 * 60 * 1000"

definition aged_entries :: "int \<Rightarrow> (string \<times> session) list" where
  "aged_entries now =
     [(''OLD001'', game1\<lparr>code := ''OLD001'', createdAt := now - 25 * hour\<rparr>),
      (''NEW001'', game1\<lparr>code := ''NEW001'', createdAt := now - 23 * hour\<rparr>)]"

section \<open>Well-formed references\<close>

text \<open>Every bound reference denotes an allocated session object.\<close>

definition refs_ok :: "server \<Rightarrow> bool" where
  "refs_ok st \<longleftrightarrow> (\<forall>c a. sessions st c = Some a \<longrightarrow> a < length (heap st))"

section \<open>Basic facts about the store\<close>

lemma lookup_Own_iff: "lookup st c = Own a \<longleftrightarrow> sessions st c = Some a \<and> a < length (heap st)"
  by (auto simp: lookup_def split: option.splits)

lemma session_at_Own: "lookup st c = Own a \<Longrightarrow> session_at st c = Some (heap st ! a)"
  by (simp add: lookup_Own_iff session_at_def)

lemma lookup_modify [simp]: "lookup (modify a f st) c = lookup st c"
  by (simp add: lookup_def modify_def split: option.splits)

lemma lookup_set_data [simp]: "lookup (set_data sock c pId st) k = lookup st k"
  by (simp add: lookup_def set_data_def split: option.splits)

lemma heap_set_data [simp]: "heap (set_data sock c pId st) = heap st"
  by (simp add: set_data_def)

lemma sessions_set_data [simp]: "sessions (set_data sock c pId st) = sessions st"
  by (simp add: set_data_def)

lemma session_at_set_data [simp]: "session_at (set_data sock c pId st) = session_at st"
  by (rule ext) (simp add: session_at_def split: option.splits)

lemma heap_modify_same: "a < length (heap st) \<Longrightarrow> heap (modify a f st) ! a = f (heap st ! a)"
  by (simp add: modify_def)

lemma length_heap_modify [simp]: "length (heap (modify a f st)) = length (heap st)"
  by (simp add: modify_def)

lemma sessions_modify [simp]: "sessions (modify a f st) = sessions st"
  by (simp add: modify_def)

lemma modify_id: "f (heap st ! a) = heap st ! a \<Longrightarrow> modify a f st = st"
  by (simp add: modify_def)

lemma lookup_bind_new: "lookup (bind_new c s st) c = Own (length (heap st))"
  by (simp add: lookup_def bind_new_def)

lemma heap_bind_new_new: "heap (bind_new c s st) ! length (heap st) = s"
  by (simp add: bind_new_def)

lemma heap_bind_new_old: "b < length (heap st) \<Longrightarrow> heap (bind_new c s st) ! b = heap st ! b"
  by (simp add: bind_new_def nth_append)

lemma sessions_bind_new_other: "k \<noteq> c \<Longrightarrow> sessions (bind_new c s st) k = sessions st k"
  by (simp add: bind_new_def)

lemma broadcast_Own:
  "lookup st c = Own a \<Longrightarrow>
   broadcast (Some c) st =
     ([SaveSessions (session_at st),
       RoomEmit (Some c) (SessionUpdate (SessionObject (heap st ! a)))],
      Returned)"
  by (simp add: broadcast_def toPropertyKey_def value_of_def)

subsection \<open>Finding a player\<close>

lemma find_id_None:
  "(\<forall>p\<in>set ps. id_p p \<noteq> playerId) \<Longrightarrow> find (\<lambda>p. id_p p = playerId) ps = None"
  by (auto simp: find_None_iff)

lemma find_id_Some:
  "\<exists>p\<in>set ps. id_p p = playerId \<Longrightarrow> \<exists>p. find (\<lambda>p. id_p p = playerId) ps = Some p"
  by (cases "find (\<lambda>p. id_p p = playerId) ps") (auto simp: find_None_iff)

text \<open>
  When \<^const>\<open>find\<close> succeeds, \<^const>\<open>modify_found\<close> rewrites exactly the first matching
  position.
\<close>

lemma modify_found_nth:
  "find P ps = Some p \<Longrightarrow>
   \<exists>i<length ps. ps ! i = p \<and> P p \<and> (\<forall>j<i. \<not> P (ps ! j)) \<and> modify_found P f ps = ps[i := f p]"
proof (induction ps)
  case Nil
  then show ?case by simp
next
  case (Cons q qs)
  show ?case
  proof (cases "P q")
    case True
    with Cons.prems have "q = p" by simp
    with True show ?thesis by (intro exI [of _ 0]) simp
  next
    case False
    with Cons.prems have "find P qs = Some p" by simp
    from Cons.IH [OF this] obtain i where i: "i < length qs" "qs ! i = p" "P p"
      "\<forall>j<i. \<not> P (qs ! j)" "modify_found P f qs = qs[i := f p]" by blast
    have "\<forall>j<Suc i. \<not> P ((q # qs) ! j)"
      using False i(4) by (auto simp: less_Suc_eq_0_disj)
    with i False show ?thesis by (intro exI [of _ "Suc i"]) simp
  qed
qed

subsection \<open>Upper-casing\<close>

lemma toUpperCase_char_not_lower: "\<not> isLower (toUpperCase_char ch)"
  by (auto simp: toUpperCase_char_def isLower_def)

lemma toUpperCase_no_lower: "\<forall>ch\<in>set (toUpperCase s). \<not> isLower ch"
  by (simp add: toUpperCase_def toUpperCase_char_not_lower)

lemma length_toUpperCase: "length (toUpperCase s) = length s"
  by (simp add: toUpperCase_def)

lemma toUpperCase_abc123: "toUpperCase ''abc123'' = ''ABC123''"
  by code_simp

text \<open>
  Every member name of \<^verbatim>\<open>Object.prototype\<close> has a lower-case letter, so an upper-cased
  code is never one of them: \<^verbatim>\<open>sessions[code] = session\<close> in \<^verbatim>\<open>createSession\<close> always
  creates or replaces an own property.
\<close>

lemma toUpperCase_not_inherited: "toUpperCase s \<notin> set objectPrototypeKeys"
proof
  assume "toUpperCase s \<in> set objectPrototypeKeys"
  then have "\<exists>ch\<in>set (toUpperCase s). isLower ch"
    by (auto simp: objectPrototypeKeys_def isLower_def)
  with toUpperCase_no_lower show False by blast
qed

section \<open>Claims\<close>

subsection \<open>C1: rejoin with an unknown player id\<close>

text \<open>
  C1. For a session object bound in the store and a \<^verbatim>\<open>rejoinSession\<close> whose \<open>playerId\<close>
  matches no entry of its players list, the handler returns and the session is the
  old one with exactly one player appended: the given id and nickname, score 0 and
  \<open>isHost\<close> equal to \<open>playerId = hostPlayerId\<close>. Nothing is assumed of \<open>isActive\<close>, so
  this holds for an active session as well.
\<close>

theorem rejoin_unknown_appends:
  assumes "lookup st c = Own a"
    and "\<forall>p\<in>set (players (heap st ! a)). id_p p \<noteq> playerId"
  shows "case rejoinSession sock c playerId nick st of
           (st', out, done) \<Rightarrow>
             done = Returned \<and>
             lookup st' c = Own a \<and>
             heap st' ! a = (heap st ! a)\<lparr>players := players (heap st ! a) @
               [\<lparr>id_p = playerId, nickname = nick, score = 0,
                 isHost = (playerId = hostPlayerId (heap st ! a))\<rparr>]\<rparr>"
proof -
  from assms(1) have a: "a < length (heap st)" by (simp add: lookup_Own_iff)
  from assms(2) have f: "find (\<lambda>p. id_p p = playerId) (players (heap st ! a)) = None"
    by (rule find_id_None)
  show ?thesis
    using assms(1) a f
    by (simp add: rejoinSession_def Let_def broadcast_Own heap_modify_same)
qed

theorem rejoin_unknown_appends_witness:
  "lookup active_server ''ABC123'' = Own 0 \<and>
   isActive (heap active_server ! 0) \<and>
   ''pCyd'' \<notin> set (map id_p (players (heap active_server ! 0))) \<and>
   players (heap (fst (rejoinSession 3 ''ABC123'' ''pCyd'' ''Cyd'' active_server)) ! 0) =
     [ann, bob, \<lparr>id_p = ''pCyd'', nickname = ''Cyd'', score = 0, isHost = False\<rparr>]"
proof -
  have h1: "lookup active_server ''ABC123'' = Own 0"
    by (simp add: lookup_def active_server_def lobby_server_def)
  have h2: "\<forall>p\<in>set (players (heap active_server ! 0)). id_p p \<noteq> ''pCyd''"
    by (simp add: active_server_def lobby_server_def game1_def ann_def bob_def)
  have h3: "isActive (heap active_server ! 0)"
    by (simp add: active_server_def lobby_server_def)
  have h4: "players (heap active_server ! 0) = [ann, bob]"
    and h5: "hostPlayerId (heap active_server ! 0) = ''pAnn''"
    by (simp_all add: active_server_def lobby_server_def game1_def)
  have h6: "''pCyd'' \<notin> set (map id_p (players (heap active_server ! 0)))"
    using h2 by auto
  from rejoin_unknown_appends [OF h1 h2, where sock = 3 and nick = "''Cyd''"] h1 h3 h4 h5 h6
  show ?thesis by (simp add: split_beta)
qed

subsection \<open>C2: join against a missing or started session\<close>

text \<open>
  When \<^verbatim>\<open>sessions[code]\<close> is \<^verbatim>\<open>undefined\<close> or an active session, \<^verbatim>\<open>joinSession\<close>
  sends the one error reply to the caller and changes nothing.
\<close>

lemma joinSession_rejects:
  assumes "lookup st c = Missing \<or> (\<exists>a. lookup st c = Own a \<and> isActive (heap st ! a))"
  shows "joinSession sock c nick newId st =
           (st, [SocketEmit sock (ErrorMessage error_text)], Returned)"
  using assms by (auto simp: joinSession_def)

text \<open>
  C2. The claim also covers a code that names no session but a member of
  \<^verbatim>\<open>Object.prototype\<close>. On the empty store \<^verbatim>\<open>joinSession\<close> with the code
  \<^verbatim>\<open>constructor\<close> sends no error reply: the guard \<^verbatim>\<open>!session || session.isActive\<close> lets
  the inherited function through and \<^verbatim>\<open>session.players.push\<close> throws.
\<close>

theorem joinSession_inherited_key:
  "joinSession 7 ''constructor'' ''Bob'' ''pBob'' empty_server = (empty_server, [], Thrown)"
  by (simp add: joinSession_def lookup_def empty_server_def objectPrototypeKeys_def)

subsection \<open>C3: connection loss\<close>

text \<open>
  C3. For a connection whose \<^verbatim>\<open>socket.data\<close> is \<open>(c, playerId)\<close> with \<open>c\<close> bound to a
  session object, \<^verbatim>\<open>disconnect\<close> returns; the session keeps all its fields except
  \<open>players\<close>, which loses the entries with that id when \<open>playerId\<close> is not the host id and
  is unchanged when it is; in both cases the effects are the save and the room-wide
  \<^verbatim>\<open>sessionUpdate\<close> of \<^verbatim>\<open>broadcast\<close>.
\<close>

theorem disconnect_effect:
  assumes "socket_data st sock = Some (c, playerId)"
    and "lookup st c = Own a"
  shows "case disconnect sock st of
           (st', out, done) \<Rightarrow>
             done = Returned \<and>
             heap st' ! a = (heap st ! a)\<lparr>players :=
               (if playerId \<noteq> hostPlayerId (heap st ! a)
                then filter (\<lambda>p. id_p p \<noteq> playerId) (players (heap st ! a))
                else players (heap st ! a))\<rparr> \<and>
             out = [SaveSessions (session_at st'),
                    RoomEmit (Some c) (SessionUpdate (SessionObject (heap st' ! a)))]"
proof -
  from assms(2) have a: "a < length (heap st)" by (simp add: lookup_Own_iff)
  show ?thesis
    using assms a
    by (simp add: disconnect_def Let_def broadcast_Own heap_modify_same)
qed

theorem disconnect_effect_witness:
  "socket_data lobby_server 2 = Some (''ABC123'', ''pBob'') \<and>
   socket_data lobby_server 1 = Some (''ABC123'', ''pAnn'') \<and>
   lookup lobby_server ''ABC123'' = Own 0 \<and>
   players (heap (fst (disconnect 2 lobby_server)) ! 0) = [ann] \<and>
   players (heap (fst (disconnect 1 lobby_server)) ! 0) = [ann, bob] \<and>
   length (fst (snd (disconnect 1 lobby_server))) = 2"
proof -
  have h1: "socket_data lobby_server 2 = Some (''ABC123'', ''pBob'')"
    and h1': "socket_data lobby_server 1 = Some (''ABC123'', ''pAnn'')"
    by (simp_all add: lobby_server_def)
  have h2: "lookup lobby_server ''ABC123'' = Own 0"
    by (simp add: lookup_def lobby_server_def)
  have h3: "heap lobby_server ! 0 = game1"
    by (simp add: lobby_server_def)
  from disconnect_effect [OF h1 h2] disconnect_effect [OF h1' h2] h1 h1' h2 h3
  show ?thesis by (simp add: split_beta game1_def ann_def bob_def)
qed

subsection \<open>C4: load at start-up\<close>

lemma refs_ok_bind_new: "refs_ok st \<Longrightarrow> refs_ok (bind_new k s st)"
  by (auto simp: refs_ok_def bind_new_def less_Suc_eq)

lemma refs_ok_empty: "refs_ok empty_server"
  by (simp add: refs_ok_def empty_server_def)

lemma session_at_empty: "session_at empty_server c = None"
  by (simp add: session_at_def empty_server_def)

lemma session_at_bind_new:
  "refs_ok st \<Longrightarrow> session_at (bind_new k s st) c = (if c = k then Some s else session_at st c)"
proof (cases "sessions st c")
  case None
  then show ?thesis by (simp add: bind_new_def session_at_def)
next
  case (Some a)
  assume "refs_ok st"
  with Some have "a < length (heap st)" by (simp add: refs_ok_def)
  with Some show ?thesis by (simp add: bind_new_def session_at_def nth_append)
qed

text \<open>Parsing binds every key of the text; the last occurrence of a key wins.\<close>

lemma session_at_parse_entries:
  "refs_ok st \<Longrightarrow>
   session_at (parse_entries es st) c =
     (case map_of (rev es) c of None \<Rightarrow> session_at st c | Some s \<Rightarrow> Some s)"
proof (induction es arbitrary: st)
  case Nil
  then show ?case by simp
next
  case (Cons e es)
  obtain k s where e: "e = (k, s)" by (cases e)
  from Cons.prems have ok: "refs_ok (bind_new k s st)" by (rule refs_ok_bind_new)
  show ?case
    using Cons.IH [OF ok] Cons.prems
    by (simp add: e session_at_bind_new map_add_def split: option.splits)
qed

lemma session_at_prune:
  "session_at (prune now st) c =
     (case session_at st c of
        None \<Rightarrow> None
      | Some s \<Rightarrow> (if now - createdAt s < TTL then Some s else None))"
  by (auto simp: prune_def session_at_def split: option.splits)

text \<open>
  C4. The mapping the server starts with is the parsed mapping of the store file
  restricted to the sessions with \<open>now - createdAt < 24 h\<close>: a session created
  25 hours ago is absent, one created 23 hours ago is present, and every session older
  than 24 hours is dropped (one aged exactly 24 hours is dropped too). A file that cannot
  be read or parsed gives the empty store.
\<close>

theorem startup_load:
  "session_at (startup now (Parsed es)) c =
     (case map_of (rev es) c of
        None \<Rightarrow> None
      | Some s \<Rightarrow> (if now - createdAt s < 24 * 60 * 60 * 1000 then Some s else None)) \<and>
   (map_of (rev es) c = Some s \<and> createdAt s = now - 25 * 60 * 60 * 1000 \<longrightarrow>
      session_at (startup now (Parsed es)) c = None) \<and>
   (map_of (rev es) c = Some s \<and> createdAt s = now - 23 * 60 * 60 * 1000 \<longrightarrow>
      session_at (startup now (Parsed es)) c = Some s) \<and>
   startup now Unreadable = empty_server \<and>
   session_at (startup now Unreadable) c = None"
proof -
  have eq: "session_at (startup now (Parsed es)) c =
     (case map_of (rev es) c of
        None \<Rightarrow> None
      | Some s \<Rightarrow> (if now - createdAt s < 24 * 60 * 60 * 1000 then Some s else None))"
    by (simp add: startup_def loadSessions_def session_at_prune
        session_at_parse_entries [OF refs_ok_empty] session_at_empty TTL_def
        split: option.splits)
  have un: "startup now Unreadable = empty_server"
    by (simp add: startup_def loadSessions_def prune_def empty_server_def)
  have old: "map_of (rev es) c = Some s \<and> createdAt s = now - 25 * 60 * 60 * 1000 \<longrightarrow>
      session_at (startup now (Parsed es)) c = None"
    unfolding eq by simp
  have new: "map_of (rev es) c = Some s \<and> createdAt s = now - 23 * 60 * 60 * 1000 \<longrightarrow>
      session_at (startup now (Parsed es)) c = Some s"
    unfolding eq by simp
  from eq old new un show ?thesis by (simp add: session_at_empty)
qed

theorem startup_load_witness:
  "map_of (rev (aged_entries 360000000)) ''OLD001'' =
     Some (game1\<lparr>code := ''OLD001'', createdAt := 360000000 - 25 * 60 * 60 * 1000\<rparr>) \<and>
   map_of (rev (aged_entries 360000000)) ''NEW001'' =
     Some (game1\<lparr>code := ''NEW001'', createdAt := 360000000 - 23 * 60 * 60 * 1000\<rparr>) \<and>
   session_at (startup 360000000 (Parsed (aged_entries 360000000))) ''OLD001'' = None \<and>
   session_at (startup 360000000 (Parsed (aged_entries 360000000))) ''NEW001'' =
     Some (game1\<lparr>code := ''NEW001'', createdAt := 360000000 - 23 * 60 * 60 * 1000\<rparr>)"
proof -
  have h1: "map_of (rev (aged_entries 360000000)) ''OLD001'' =
     Some (game1\<lparr>code := ''OLD001'', createdAt := 360000000 - 25 * 60 * 60 * 1000\<rparr>)"
    and h2: "map_of (rev (aged_entries 360000000)) ''NEW001'' =
     Some (game1\<lparr>code := ''NEW001'', createdAt := 360000000 - 23 * 60 * 60 * 1000\<rparr>)"
    by (simp_all add: aged_entries_def hour_def)
  from startup_load [where now = 360000000 and es = "aged_entries 360000000"
      and c = "''OLD001''"
      and s = "game1\<lparr>code := ''OLD001'', createdAt := 360000000 - 25 * 60 * 60 * 1000\<rparr>"]
    startup_load [where now = 360000000 and es = "aged_entries 360000000"
      and c = "''NEW001''"
      and s = "game1\<lparr>code := ''NEW001'', createdAt := 360000000 - 23 * 60 * 60 * 1000\<rparr>"]
    h1 h2
  show ?thesis by simp
qed

subsection \<open>C5: start\<close>

text \<open>
  On a session in the lobby \<^verbatim>\<open>startSession\<close> sets \<open>isActive\<close> and emits, in this order,
  the \<^verbatim>\<open>sessionUpdate\<close> with the updated record and \<^verbatim>\<open>sessionStarted\<close>, both to the room.
  When \<^verbatim>\<open>sessions[code]\<close> is \<^verbatim>\<open>undefined\<close> or an active session it does nothing.
\<close>

lemma startSession_starts:
  assumes "lookup st c = Own a" and "\<not> isActive (heap st ! a)"
  shows "case startSession sock c st of
           (st', out, done) \<Rightarrow>
             done = Returned \<and>
             heap st' ! a = (heap st ! a)\<lparr>isActive := True\<rparr> \<and>
             out = [SaveSessions (session_at st'),
                    RoomEmit (Some c) (SessionUpdate (SessionObject (heap st' ! a))),
                    RoomEmit (Some c) SessionStarted]"
proof -
  from assms(1) have a: "a < length (heap st)" by (simp add: lookup_Own_iff)
  show ?thesis
    using assms a
    by (simp add: startSession_def broadcast_started_def Let_def broadcast_Own heap_modify_same)
qed

lemma startSession_noop:
  assumes "lookup st c = Missing \<or> (\<exists>a. lookup st c = Own a \<and> isActive (heap st ! a))"
  shows "startSession sock c st = (st, [], Returned)"
  using assms by (auto simp: startSession_def)

text \<open>
  C5. The no-op part of the claim also covers a code that names no session but a member
  of \<^verbatim>\<open>Object.prototype\<close>. On the empty store \<^verbatim>\<open>startSession\<close> with the code
  \<^verbatim>\<open>constructor\<close> is not a no-op: the store is saved, a \<^verbatim>\<open>sessionUpdate\<close> carrying the
  inherited value goes to the room and the handler throws before \<^verbatim>\<open>sessionStarted\<close>.
\<close>

theorem startSession_inherited_key:
  "startSession 7 ''constructor'' empty_server =
     (empty_server,
      [SaveSessions (session_at empty_server),
       RoomEmit (Some ''constructor'') (SessionUpdate InheritedObject)],
      Thrown)"
  by (simp add: startSession_def broadcast_started_def broadcast_def toPropertyKey_def
      value_of_def lookup_def empty_server_def objectPrototypeKeys_def)

subsection \<open>C6: score update\<close>

lemma updateScore_found:
  assumes "lookup st c = Own a" and "isActive (heap st ! a)"
    and "find (\<lambda>p. id_p p = playerId) (players (heap st ! a)) = Some p"
  shows "updateScore sock c playerId v st =
           (modify a (\<lambda>s. s\<lparr>players := modify_found (\<lambda>p. id_p p = playerId)
                        (\<lambda>p. p\<lparr>score := v\<rparr>) (players s)\<rparr>) st,
            [SaveSessions (session_at (modify a (\<lambda>s. s\<lparr>players :=
                 modify_found (\<lambda>p. id_p p = playerId)
                        (\<lambda>p. p\<lparr>score := v\<rparr>) (players s)\<rparr>) st)),
             RoomEmit (Some c) (SessionUpdate (SessionObject
               ((heap st ! a)\<lparr>players := modify_found (\<lambda>p. id_p p = playerId)
                        (\<lambda>p. p\<lparr>score := v\<rparr>) (players (heap st ! a))\<rparr>)))],
            Returned)"
proof -
  from assms(1) have a: "a < length (heap st)" by (simp add: lookup_Own_iff)
  show ?thesis
    using assms a
    by (simp add: updateScore_def Let_def broadcast_Own heap_modify_same)
qed

lemma updateScore_noop:
  assumes "\<forall>b. lookup st c = Own b \<longrightarrow>
        \<not> isActive (heap st ! b) \<or> (\<forall>p\<in>set (players (heap st ! b)). id_p p \<noteq> playerId)"
  shows "updateScore sock c playerId v st = (st, [], Returned)"
proof (cases "lookup st c")
  case Missing
  then show ?thesis by (simp add: updateScore_def)
next
  case Inherited
  then show ?thesis by (simp add: updateScore_def)
next
  case (Own b)
  show ?thesis
  proof (cases "isActive (heap st ! b)")
    case False
    with Own show ?thesis by (simp add: updateScore_def)
  next
    case True
    with assms Own have "\<forall>p\<in>set (players (heap st ! b)). id_p p \<noteq> playerId" by blast
    then have "find (\<lambda>p. id_p p = playerId) (players (heap st ! b)) = None"
      by (rule find_id_None)
    with Own True show ?thesis by (simp add: updateScore_def)
  qed
qed

text \<open>
  C6. When the code is bound to an active session that has a player with the given id,
  \<^verbatim>\<open>updateScore\<close> returns, the session is the old one with the score of the first such
  player (position \<open>i\<close>) replaced by the given value, every other entry of \<open>players\<close> is
  the old one, and the effects are the save and the \<^verbatim>\<open>sessionUpdate\<close> of \<^verbatim>\<open>broadcast\<close>.
  In every other case (no session object under the code, session not active, no
  such player) the state is unchanged and there is no effect.
\<close>

theorem updateScore_effect:
  "(lookup st c = Own a \<and> isActive (heap st ! a) \<and>
      (\<exists>p\<in>set (players (heap st ! a)). id_p p = playerId) \<longrightarrow>
    (case updateScore sock c playerId v st of
       (st', out, done) \<Rightarrow>
         done = Returned \<and>
         (\<exists>i<length (players (heap st ! a)).
            id_p (players (heap st ! a) ! i) = playerId \<and>
            (\<forall>j<i. id_p (players (heap st ! a) ! j) \<noteq> playerId) \<and>
            heap st' ! a = (heap st ! a)\<lparr>players :=
              (players (heap st ! a))[i := (players (heap st ! a) ! i)\<lparr>score := v\<rparr>]\<rparr>) \<and>
         out = [SaveSessions (session_at st'),
                RoomEmit (Some c) (SessionUpdate (SessionObject (heap st' ! a)))])) \<and>
   ((\<forall>b. lookup st c = Own b \<longrightarrow>
        \<not> isActive (heap st ! b) \<or> (\<forall>p\<in>set (players (heap st ! b)). id_p p \<noteq> playerId)) \<longrightarrow>
    updateScore sock c playerId v st = (st, [], Returned))"
proof (intro conjI impI)
  let ?ps = "players (heap st ! a)"
  let ?f = "\<lambda>p. p\<lparr>score := v\<rparr>"
  assume h: "lookup st c = Own a \<and> isActive (heap st ! a) \<and> (\<exists>p\<in>set ?ps. id_p p = playerId)"
  then have a: "a < length (heap st)" by (simp add: lookup_Own_iff)
  from h obtain p where p: "find (\<lambda>p. id_p p = playerId) ?ps = Some p"
    using find_id_Some by blast
  from modify_found_nth [OF p, of ?f]
  obtain i where i: "i < length ?ps" "?ps ! i = p" "id_p p = playerId"
    "\<forall>j<i. id_p (?ps ! j) \<noteq> playerId"
    "modify_found (\<lambda>p. id_p p = playerId) ?f ?ps = ?ps[i := ?f p]"
    by blast
  from h p have eq: "updateScore sock c playerId v st =
      (modify a (\<lambda>s. s\<lparr>players := modify_found (\<lambda>p. id_p p = playerId) ?f (players s)\<rparr>) st,
       [SaveSessions (session_at (modify a (\<lambda>s. s\<lparr>players :=
            modify_found (\<lambda>p. id_p p = playerId) ?f (players s)\<rparr>) st)),
        RoomEmit (Some c) (SessionUpdate (SessionObject
          ((heap st ! a)\<lparr>players := modify_found (\<lambda>p. id_p p = playerId) ?f ?ps\<rparr>)))],
       Returned)"
    by (simp add: updateScore_found)
  have ex: "\<exists>k<length ?ps. id_p (?ps ! k) = playerId \<and> (\<forall>j<k. id_p (?ps ! j) \<noteq> playerId) \<and>
      (heap st ! a)\<lparr>players := modify_found (\<lambda>p. id_p p = playerId) ?f ?ps\<rparr> =
        (heap st ! a)\<lparr>players := ?ps[k := ?f (?ps ! k)]\<rparr>"
    using i by (intro exI [of _ i]) simp
  show "case updateScore sock c playerId v st of
       (st', out, done) \<Rightarrow>
         done = Returned \<and>
         (\<exists>i<length ?ps.
            id_p (?ps ! i) = playerId \<and>
            (\<forall>j<i. id_p (?ps ! j) \<noteq> playerId) \<and>
            heap st' ! a = (heap st ! a)\<lparr>players := ?ps[i := (?ps ! i)\<lparr>score := v\<rparr>]\<rparr>) \<and>
         out = [SaveSessions (session_at st'),
                RoomEmit (Some c) (SessionUpdate (SessionObject (heap st' ! a)))]"
    unfolding eq using ex a by (simp add: heap_modify_same)
next
  assume "\<forall>b. lookup st c = Own b \<longrightarrow>
        \<not> isActive (heap st ! b) \<or> (\<forall>p\<in>set (players (heap st ! b)). id_p p \<noteq> playerId)"
  then show "updateScore sock c playerId v st = (st, [], Returned)"
    by (rule updateScore_noop)
qed

theorem updateScore_effect_witness:
  "lookup active_server ''ABC123'' = Own 0 \<and>
   isActive (heap active_server ! 0) \<and>
   (\<exists>p\<in>set (players (heap active_server ! 0)). id_p p = ''pAnn'') \<and>
   players (heap (fst (updateScore 1 ''ABC123'' ''pAnn'' 10 active_server)) ! 0) =
     [ann\<lparr>score := 10\<rparr>, bob] \<and>
   lookup lobby_server ''ABC123'' = Own 0 \<and>
   \<not> isActive (heap lobby_server ! 0) \<and>
   updateScore 1 ''ABC123'' ''pAnn'' 10 lobby_server = (lobby_server, [], Returned)"
proof -
  have h1: "lookup active_server ''ABC123'' = Own 0"
    and h2: "isActive (heap active_server ! 0)"
    and h3: "\<exists>p\<in>set (players (heap active_server ! 0)). id_p p = ''pAnn''"
    and h4: "players (heap active_server ! 0) = [ann, bob]"
    by (simp_all add: lookup_def active_server_def lobby_server_def game1_def ann_def)
  have g1: "lookup lobby_server ''ABC123'' = Own 0"
    and g2: "\<not> isActive (heap lobby_server ! 0)"
    by (simp_all add: lookup_def lobby_server_def game1_def)
  have g3: "\<forall>b. lookup lobby_server ''ABC123'' = Own b \<longrightarrow>
        \<not> isActive (heap lobby_server ! b) \<or>
        (\<forall>p\<in>set (players (heap lobby_server ! b)). id_p p \<noteq> ''pAnn'')"
    using g1 g2 by simp
  have ids: "id_p ann = ''pAnn''" "id_p bob \<noteq> ''pAnn''"
    by (simp_all add: ann_def bob_def)
  from updateScore_effect [where st = active_server and c = "''ABC123''" and a = 0
      and playerId = "''pAnn''" and sock = 1 and v = 10] h1 h2 h3
  obtain i where i: "i < length [ann, bob]" "id_p ([ann, bob] ! i) = ''pAnn''"
    "heap (fst (updateScore 1 ''ABC123'' ''pAnn'' 10 active_server)) ! 0 =
       (heap active_server ! 0)\<lparr>players := [ann, bob][i := ([ann, bob] ! i)\<lparr>score := 10\<rparr>]\<rparr>"
    by (auto simp: split_beta h4)
  from i(1,2) ids have "i = 0" by (cases i) simp_all
  with i(3) have a: "players (heap (fst (updateScore 1 ''ABC123'' ''pAnn'' 10 active_server)) ! 0) =
      [ann\<lparr>score := 10\<rparr>, bob]"
    by simp
  from updateScore_effect [where st = lobby_server and c = "''ABC123''" and a = 0
      and playerId = "''pAnn''" and sock = 1 and v = 10] g3
  have b: "updateScore 1 ''ABC123'' ''pAnn'' 10 lobby_server = (lobby_server, [], Returned)"
    by blast
  from a b h1 h2 h3 g1 g2 show ?thesis by simp
qed

subsection \<open>C7: rejoin with a known player id\<close>

text \<open>
  C7. For a session object bound in the store that has a player with the given id,
  \<^verbatim>\<open>rejoinSession\<close> returns and the session is the old one except for the first such
  player (position \<open>i\<close>), whose \<open>isHost\<close> becomes \<open>playerId = hostPlayerId\<close> and whose
  \<open>nickname\<close> becomes the given one. So the length of \<open>players\<close> is the same, every
  score and id is the same, and every entry with another id is the same record.
\<close>

theorem rejoin_known_refreshes:
  assumes "lookup st c = Own a"
    and "\<exists>p\<in>set (players (heap st ! a)). id_p p = playerId"
  shows "case rejoinSession sock c playerId nick st of
           (st', out, done) \<Rightarrow>
             done = Returned \<and>
             length (players (heap st' ! a)) = length (players (heap st ! a)) \<and>
             (\<exists>i<length (players (heap st ! a)).
                id_p (players (heap st ! a) ! i) = playerId \<and>
                (\<forall>j<i. id_p (players (heap st ! a) ! j) \<noteq> playerId) \<and>
                heap st' ! a = (heap st ! a)\<lparr>players :=
                  (players (heap st ! a))[i := (players (heap st ! a) ! i)
                     \<lparr>isHost := (playerId = hostPlayerId (heap st ! a)), nickname := nick\<rparr>]\<rparr>) \<and>
             (\<forall>j<length (players (heap st ! a)).
                score (players (heap st' ! a) ! j) = score (players (heap st ! a) ! j) \<and>
                id_p (players (heap st' ! a) ! j) = id_p (players (heap st ! a) ! j) \<and>
                (id_p (players (heap st ! a) ! j) \<noteq> playerId \<longrightarrow>
                   players (heap st' ! a) ! j = players (heap st ! a) ! j))"
proof -
  let ?ps = "players (heap st ! a)"
  let ?f = "\<lambda>p. p\<lparr>isHost := (playerId = hostPlayerId (heap st ! a)), nickname := nick\<rparr>"
  from assms(1) have a: "a < length (heap st)" by (simp add: lookup_Own_iff)
  from assms(2) obtain p where p: "find (\<lambda>p. id_p p = playerId) ?ps = Some p"
    using find_id_Some by blast
  from modify_found_nth [OF p, of ?f]
  obtain i where i: "i < length ?ps" "?ps ! i = p" "id_p p = playerId"
    "\<forall>j<i. id_p (?ps ! j) \<noteq> playerId"
    "modify_found (\<lambda>p. id_p p = playerId) ?f ?ps = ?ps[i := ?f p]"
    by blast
  have st': "heap (fst (rejoinSession sock c playerId nick st)) ! a =
      (heap st ! a)\<lparr>players := ?ps[i := ?f (?ps ! i)]\<rparr>"
    and fin: "snd (snd (rejoinSession sock c playerId nick st)) = Returned"
    using assms(1) a p i(2,5)
    by (simp_all add: rejoinSession_def Let_def broadcast_Own heap_modify_same)
  have frame: "\<forall>j<length ?ps.
      score ((?ps[i := ?f (?ps ! i)]) ! j) = score (?ps ! j) \<and>
      id_p ((?ps[i := ?f (?ps ! i)]) ! j) = id_p (?ps ! j) \<and>
      (id_p (?ps ! j) \<noteq> playerId \<longrightarrow> (?ps[i := ?f (?ps ! i)]) ! j = ?ps ! j)"
    using i(1,2,3) by (auto simp: nth_list_update)
  have ex: "\<exists>k<length ?ps. id_p (?ps ! k) = playerId \<and> (\<forall>j<k. id_p (?ps ! j) \<noteq> playerId) \<and>
      heap (fst (rejoinSession sock c playerId nick st)) ! a =
        (heap st ! a)\<lparr>players := ?ps[k := ?f (?ps ! k)]\<rparr>"
    using i st' by (intro exI [of _ i]) simp
  show ?thesis
    using st' fin frame ex by (simp add: split_beta)
qed

theorem rejoin_known_refreshes_witness:
  "lookup lobby_server ''ABC123'' = Own 0 \<and>
   (\<exists>p\<in>set (players (heap lobby_server ! 0)). id_p p = ''pBob'') \<and>
   length (players (heap (fst (rejoinSession 4 ''ABC123'' ''pBob'' ''Bobby'' lobby_server)) ! 0)) = 2 \<and>
   players (heap (fst (rejoinSession 4 ''ABC123'' ''pBob'' ''Bobby'' lobby_server)) ! 0) ! 0 = ann \<and>
   score (players (heap (fst (rejoinSession 4 ''ABC123'' ''pBob'' ''Bobby'' lobby_server)) ! 0) ! 1) = 0"
proof -
  have h1: "lookup lobby_server ''ABC123'' = Own 0"
    and h2: "\<exists>p\<in>set (players (heap lobby_server ! 0)). id_p p = ''pBob''"
    and h3: "players (heap lobby_server ! 0) = [ann, bob]"
    by (simp_all add: lookup_def lobby_server_def game1_def bob_def)
  have ids: "id_p ann \<noteq> ''pBob''" "score bob = 0"
    by (simp_all add: ann_def bob_def)
  from rejoin_known_refreshes [OF h1 h2, where sock = 4 and nick = "''Bobby''"]
  have "length (players (heap (fst (rejoinSession 4 ''ABC123'' ''pBob'' ''Bobby'' lobby_server)) ! 0)) =
      length [ann, bob] \<and>
    (\<forall>j<length [ann, bob].
       score (players (heap (fst (rejoinSession 4 ''ABC123'' ''pBob'' ''Bobby'' lobby_server)) ! 0) ! j) =
         score ([ann, bob] ! j) \<and>
       (id_p ([ann, bob] ! j) \<noteq> ''pBob'' \<longrightarrow>
          players (heap (fst (rejoinSession 4 ''ABC123'' ''pBob'' ''Bobby'' lobby_server)) ! 0) ! j =
            [ann, bob] ! j))"
    by (simp add: split_beta h3)
  then have "length (players (heap (fst (rejoinSession 4 ''ABC123'' ''pBob'' ''Bobby'' lobby_server)) ! 0)) = 2"
    and "players (heap (fst (rejoinSession 4 ''ABC123'' ''pBob'' ''Bobby'' lobby_server)) ! 0) ! 0 = ann"
    and "score (players (heap (fst (rejoinSession 4 ''ABC123'' ''pBob'' ''Bobby'' lobby_server)) ! 0) ! 1) = 0"
    using ids by (auto simp: all_conj_distrib less_Suc_eq numeral_2_eq_2)
  with h1 h2 show ?thesis by simp
qed

subsection \<open>C8: create\<close>

lemma createSession_eq:
  "createSession sock nick sessionName raw newId now st =
     (set_data sock (toUpperCase raw) newId
        (bind_new (toUpperCase raw)
           \<lparr>code = toUpperCase raw, name = sessionName, hostPlayerId = newId,
            players = [\<lparr>id_p = newId, nickname = nick, score = 0, isHost = True\<rparr>],
            createdAt = now, isActive = False\<rparr> st),
      [SocketJoin sock (toUpperCase raw),
       SocketEmit sock (CreateSessionResponse
         \<lparr>code = toUpperCase raw, name = sessionName, hostPlayerId = newId,
          players = [\<lparr>id_p = newId, nickname = nick, score = 0, isHost = True\<rparr>],
          createdAt = now, isActive = False\<rparr>
         \<lparr>id_p = newId, nickname = nick, score = 0, isHost = True\<rparr>),
       SaveSessions (session_at (bind_new (toUpperCase raw)
           \<lparr>code = toUpperCase raw, name = sessionName, hostPlayerId = newId,
            players = [\<lparr>id_p = newId, nickname = nick, score = 0, isHost = True\<rparr>],
            createdAt = now, isActive = False\<rparr> st)),
       RoomEmit (Some (toUpperCase raw)) (SessionUpdate (SessionObject
         \<lparr>code = toUpperCase raw, name = sessionName, hostPlayerId = newId,
          players = [\<lparr>id_p = newId, nickname = nick, score = 0, isHost = True\<rparr>],
          createdAt = now, isActive = False\<rparr>))],
      Returned)"
  by (simp add: createSession_def Let_def heap_bind_new_new
      broadcast_Own [of _ _ "length (heap st)"] lookup_bind_new)

text \<open>
  C8, as stated, fails on uniqueness. In the example lobby the code \<^verbatim>\<open>ABC123\<close> is bound;
  a \<^verbatim>\<open>createSession\<close> for which \<^verbatim>\<open>nanoid(6)\<close> returns \<^verbatim>\<open>abc123\<close> produces the same code:
  afterwards two session objects carry the code \<^verbatim>\<open>ABC123\<close> and the store binds it to the
  new one.
\<close>

theorem createSession_code_collision:
  "nanoid_returns 6 ''abc123'' \<and>
   session_at lobby_server ''ABC123'' = Some game1 \<and>
   code (heap (fst (createSession 3 ''Cyd'' ''Game2'' ''abc123'' ''pCyd'' 2000 lobby_server)) ! 0) =
     ''ABC123'' \<and>
   code (heap (fst (createSession 3 ''Cyd'' ''Game2'' ''abc123'' ''pCyd'' 2000 lobby_server)) ! 1) =
     ''ABC123'' \<and>
   hostPlayerId
     (heap (fst (createSession 3 ''Cyd'' ''Game2'' ''abc123'' ''pCyd'' 2000 lobby_server)) ! 1) =
     ''pCyd'' \<and>
   lookup (fst (createSession 3 ''Cyd'' ''Game2'' ''abc123'' ''pCyd'' 2000 lobby_server)) ''ABC123'' =
     Own 1 \<and>
   session_at (fst (createSession 3 ''Cyd'' ''Game2'' ''abc123'' ''pCyd'' 2000 lobby_server))
     ''ABC123'' \<noteq> Some game1"
  by (simp add: createSession_eq toUpperCase_abc123 nanoid_returns_def urlAlphabet_def
      session_at_def lookup_def bind_new_def lobby_server_def game1_def)

text \<open>
  C8, amended. Every \<^verbatim>\<open>createSession\<close> returns. Its code is the upper-cased value of
  \<^verbatim>\<open>nanoid(6)\<close>: six characters, none of them a lower-case letter. The store binds that
  code to a new session object with the given name, \<open>hostPlayerId\<close> the value of
  \<^verbatim>\<open>nanoid()\<close>, exactly one player (that id, the given nickname, score 0, host),
  \<open>isActive\<close> false and \<open>createdAt\<close> the current time. Every session object that existed
  is unchanged and every other code keeps its binding; the code itself is not checked
  against the store, so a binding it already had is replaced. The connection is
  associated with the code and the id.
\<close>

theorem createSession_result:
  assumes "nanoid_returns 6 raw"
  shows "case createSession sock nick sessionName raw newId now st of
           (st', out, done) \<Rightarrow>
             done = Returned \<and>
             length (toUpperCase raw) = 6 \<and>
             (\<forall>ch\<in>set (toUpperCase raw). \<not> isLower ch) \<and>
             lookup st' (toUpperCase raw) = Own (length (heap st)) \<and>
             heap st' ! length (heap st) =
               \<lparr>code = toUpperCase raw, name = sessionName, hostPlayerId = newId,
                players = [\<lparr>id_p = newId, nickname = nick, score = 0, isHost = True\<rparr>],
                createdAt = now, isActive = False\<rparr> \<and>
             (\<forall>b<length (heap st). heap st' ! b = heap st ! b) \<and>
             (\<forall>k. k \<noteq> toUpperCase raw \<longrightarrow> sessions st' k = sessions st k) \<and>
             socket_data st' sock = Some (toUpperCase raw, newId)"
  using assms
  by (simp add: createSession_eq nanoid_returns_def length_toUpperCase toUpperCase_no_lower
      lookup_bind_new heap_bind_new_new heap_bind_new_old sessions_bind_new_other)
    (simp add: set_data_def)

theorem createSession_result_witness:
  "nanoid_returns 6 ''abc123'' \<and>
   toUpperCase ''abc123'' = ''ABC123'' \<and>
   lookup (fst (createSession 1 ''Ann'' ''Game1'' ''abc123'' ''pAnn'' 1000 empty_server)) ''ABC123'' =
     Own 0 \<and>
   heap (fst (createSession 1 ''Ann'' ''Game1'' ''abc123'' ''pAnn'' 1000 empty_server)) ! 0 =
     \<lparr>code = ''ABC123'', name = ''Game1'', hostPlayerId = ''pAnn'',
      players = [\<lparr>id_p = ''pAnn'', nickname = ''Ann'', score = 0, isHost = True\<rparr>],
      createdAt = 1000, isActive = False\<rparr>"
proof -
  have h: "nanoid_returns 6 ''abc123''"
    by (simp add: nanoid_returns_def urlAlphabet_def)
  have e: "length (heap empty_server) = 0"
    by (simp add: empty_server_def)
  from createSession_result [OF h, where sock = 1 and nick = "''Ann''"
      and sessionName = "''Game1''" and newId = "''pAnn''" and now = 1000 and st = empty_server] h
  show ?thesis by (simp add: split_beta toUpperCase_abc123 e)
qed

subsection \<open>C9: an active session stays active\<close>

lemma active_modify:
  assumes "\<And>s. isActive s \<Longrightarrow> isActive (f s)"
    and "a < length (heap st) \<and> isActive (heap st ! a)"
  shows "a < length (heap (modify b f st)) \<and> isActive (heap (modify b f st) ! a)"
  using assms by (cases "a = b") (simp_all add: modify_def)

lemma active_bind_new:
  "a < length (heap st) \<and> isActive (heap st ! a) \<Longrightarrow>
   a < length (heap (bind_new c s st)) \<and> isActive (heap (bind_new c s st) ! a)"
  by (simp add: bind_new_def nth_append)

lemma createSession_active:
  assumes "a < length (heap st) \<and> isActive (heap st ! a)"
  shows "a < length (heap (fst (createSession sock nick sessionName raw newId now st))) \<and>
         isActive (heap (fst (createSession sock nick sessionName raw newId now st)) ! a)"
  using active_bind_new [OF assms] by (simp add: createSession_eq)

lemma joinSession_active:
  assumes "a < length (heap st) \<and> isActive (heap st ! a)"
  shows "a < length (heap (fst (joinSession sock c nick newId st))) \<and>
         isActive (heap (fst (joinSession sock c nick newId st)) ! a)"
proof (cases "lookup st c")
  case (Own b)
  have "a < length (heap (modify b (\<lambda>s. s\<lparr>players := players s @
            [\<lparr>id_p = newId, nickname = nick, score = 0, isHost = False\<rparr>]\<rparr>) st)) \<and>
        isActive (heap (modify b (\<lambda>s. s\<lparr>players := players s @
            [\<lparr>id_p = newId, nickname = nick, score = 0, isHost = False\<rparr>]\<rparr>) st) ! a)"
    using assms by (intro active_modify) simp_all
  with Own assms show ?thesis
    by (simp add: joinSession_def Let_def split_beta)
qed (use assms in \<open>simp_all add: joinSession_def\<close>)

lemma rejoinSession_active:
  assumes "a < length (heap st) \<and> isActive (heap st ! a)"
  shows "a < length (heap (fst (rejoinSession sock c playerId nick st))) \<and>
         isActive (heap (fst (rejoinSession sock c playerId nick st)) ! a)"
proof (cases "lookup st c")
  case (Own b)
  have m: "\<And>f. (\<And>s. isActive s \<Longrightarrow> isActive (f s)) \<Longrightarrow>
     a < length (heap (modify b f st)) \<and> isActive (heap (modify b f st) ! a)"
    using assms by (intro active_modify) simp_all
  show ?thesis
  proof (cases "find (\<lambda>p. id_p p = playerId) (players (heap st ! b))")
    case None
    with Own m show ?thesis by (simp add: rejoinSession_def Let_def split_beta)
  next
    case (Some p)
    with Own m show ?thesis by (simp add: rejoinSession_def Let_def split_beta)
  qed
qed (use assms in \<open>simp_all add: rejoinSession_def\<close>)

lemma startSession_active:
  assumes "a < length (heap st) \<and> isActive (heap st ! a)"
  shows "a < length (heap (fst (startSession sock c st))) \<and>
         isActive (heap (fst (startSession sock c st)) ! a)"
proof (cases "lookup st c")
  case (Own b)
  have "a < length (heap (modify b (\<lambda>s. s\<lparr>isActive := True\<rparr>) st)) \<and>
        isActive (heap (modify b (\<lambda>s. s\<lparr>isActive := True\<rparr>) st) ! a)"
    using assms by (intro active_modify) simp_all
  with Own assms show ?thesis
    by (simp add: startSession_def broadcast_started_def Let_def split_beta
        split: completion.splits)
qed (use assms in \<open>simp_all add: startSession_def broadcast_started_def split_beta
        split: completion.splits\<close>)

lemma updateScore_active:
  assumes "a < length (heap st) \<and> isActive (heap st ! a)"
  shows "a < length (heap (fst (updateScore sock c playerId v st))) \<and>
         isActive (heap (fst (updateScore sock c playerId v st)) ! a)"
proof (cases "lookup st c")
  case (Own b)
  have "a < length (heap (modify b (\<lambda>s. s\<lparr>players := modify_found (\<lambda>p. id_p p = playerId)
            (\<lambda>p. p\<lparr>score := v\<rparr>) (players s)\<rparr>) st)) \<and>
        isActive (heap (modify b (\<lambda>s. s\<lparr>players := modify_found (\<lambda>p. id_p p = playerId)
            (\<lambda>p. p\<lparr>score := v\<rparr>) (players s)\<rparr>) st) ! a)"
    using assms by (intro active_modify) simp_all
  with Own assms show ?thesis
    by (simp add: updateScore_def Let_def split_beta split: option.splits)
qed (use assms in \<open>simp_all add: updateScore_def\<close>)

lemma leaveSession_active:
  assumes "a < length (heap st) \<and> isActive (heap st ! a)"
  shows "a < length (heap (fst (leaveSession sock c playerId st))) \<and>
         isActive (heap (fst (leaveSession sock c playerId st)) ! a)"
proof (cases "lookup st c")
  case (Own b)
  have "a < length (heap (modify b (\<lambda>s. s\<lparr>players :=
            filter (\<lambda>p. id_p p \<noteq> playerId) (players s)\<rparr>) st)) \<and>
        isActive (heap (modify b (\<lambda>s. s\<lparr>players :=
            filter (\<lambda>p. id_p p \<noteq> playerId) (players s)\<rparr>) st) ! a)"
    using assms by (intro active_modify) simp_all
  with Own show ?thesis
    by (simp add: leaveSession_def Let_def split_beta)
qed (use assms in \<open>simp_all add: leaveSession_def\<close>)

lemma disconnect_active:
  assumes "a < length (heap st) \<and> isActive (heap st ! a)"
  shows "a < length (heap (fst (disconnect sock st))) \<and>
         isActive (heap (fst (disconnect sock st)) ! a)"
proof -
  have m: "\<And>b f. (\<And>s. isActive s \<Longrightarrow> isActive (f s)) \<Longrightarrow>
     a < length (heap (modify b f st)) \<and> isActive (heap (modify b f st) ! a)"
    using assms by (intro active_modify) simp_all
  show ?thesis
  proof (cases "socket_data st sock")
    case None
    with m assms show ?thesis
      by (simp add: disconnect_def Let_def split_beta split: lookup.splits)
  next
    case (Some d)
    obtain c playerId where d: "d = (c, playerId)" by (cases d)
    with Some m assms show ?thesis
      by (simp add: disconnect_def Let_def split_beta split: lookup.splits)
  qed
qed

lemma handle_active:
  assumes "a < length (heap st) \<and> isActive (heap st ! a)"
  shows "a < length (heap (fst (handle e st))) \<and> isActive (heap (fst (handle e st)) ! a)"
  using assms
  by (cases e)
    (simp_all only: handle.simps createSession_active joinSession_active rejoinSession_active
      startSession_active updateScore_active leaveSession_active disconnect_active simp_thms)

text \<open>
  Only \<^verbatim>\<open>createSession\<close> changes which object a code is bound to: it binds its own code
  to the new lobby session, also when that code was bound to an active session before
  (see C8). The object bound before is not changed by that.
\<close>

lemma handle_keeps_bindings:
  assumes "\<And>sock nick sessionName raw newId now.
      e \<noteq> CreateSession sock nick sessionName raw newId now"
  shows "sessions (fst (handle e st)) = sessions st"
proof (cases e)
  case (CreateSession sock nick sessionName raw newId now)
  with assms show ?thesis by blast
next
  case (JoinSession sock c nick newId)
  then show ?thesis
    by (simp add: joinSession_def Let_def split_beta split: lookup.splits)
next
  case (RejoinSession sock c playerId nick)
  then show ?thesis
    by (simp add: rejoinSession_def Let_def split_beta split: lookup.splits option.splits)
next
  case (StartSession sock c)
  then show ?thesis
    by (simp add: startSession_def broadcast_started_def Let_def split_beta
        split: lookup.splits completion.splits)
next
  case (UpdateScore sock c playerId v)
  then show ?thesis
    by (simp add: updateScore_def Let_def split_beta split: lookup.splits option.splits)
next
  case (LeaveSession sock c playerId)
  then show ?thesis
    by (simp add: leaveSession_def Let_def split_beta split: lookup.splits)
next
  case (Disconnect sock)
  then show ?thesis
    by (simp add: disconnect_def Let_def split_beta split: lookup.splits option.splits)
qed

text \<open>
  C9. For every session object and every sequence of events (create, join, rejoin, start,
  score update, leave, connection loss, in any order and with any arguments), if the
  object's \<open>isActive\<close> is true before the run it is true after it, whether the run ends
  normally or with an uncaught exception.
\<close>

theorem isActive_never_reset:
  assumes "a < length (heap st)" and "isActive (heap st ! a)"
  shows "a < length (heap (fst (run evs st))) \<and> isActive (heap (fst (run evs st)) ! a)"
  using assms
proof (induction evs arbitrary: st)
  case Nil
  then show ?case by simp
next
  case (Cons e es)
  obtain st1 out d where h: "handle e st = (st1, out, d)" by (cases "handle e st")
  from handle_active [of a st e] Cons.prems h
  have st1: "a < length (heap st1)" "isActive (heap st1 ! a)" by simp_all
  show ?case
  proof (cases d)
    case Thrown
    with h st1 show ?thesis by simp
  next
    case Returned
    with h Cons.IH [OF st1] show ?thesis by (simp add: split_beta)
  qed
qed

theorem isActive_never_reset_witness:
  "0 < length (heap active_server) \<and>
   isActive (heap active_server ! 0) \<and>
   isActive (heap (fst (run [JoinSession 3 ''ABC123'' ''Cyd'' ''pCyd'',
                             UpdateScore 1 ''ABC123'' ''pAnn'' 10,
                             CreateSession 4 ''Dan'' ''Game2'' ''abc123'' ''pDan'' 2000,
                             LeaveSession 1 ''ABC123'' ''pAnn'',
                             Disconnect 2,
                             StartSession 4 ''toString''] active_server)) ! 0)"
proof -
  have h1: "0 < length (heap active_server)"
    and h2: "isActive (heap active_server ! 0)"
    by (simp_all add: active_server_def lobby_server_def)
  from isActive_never_reset [OF h1 h2]
  have "isActive (heap (fst (run [JoinSession 3 ''ABC123'' ''Cyd'' ''pCyd'',
                             UpdateScore 1 ''ABC123'' ''pAnn'' 10,
                             CreateSession 4 ''Dan'' ''Game2'' ''abc123'' ''pDan'' 2000,
                             LeaveSession 1 ''ABC123'' ''pAnn'',
                             Disconnect 2,
                             StartSession 4 ''toString''] active_server)) ! 0)"
    by (rule conjunct2)
  with h1 h2 show ?thesis by blast
qed

subsection \<open>C10: leave with an unknown player id\<close>

text \<open>
  C10. For a session object bound in the store and a \<^verbatim>\<open>leaveSession\<close> whose \<open>playerId\<close>
  matches none of its players, the whole state is unchanged, the handler returns, and
  the effects are: the socket leaves the room, the whole store is saved, and a
  \<^verbatim>\<open>sessionUpdate\<close> with the unchanged record goes to the room. No error message is
  among them.
\<close>

theorem leave_unknown_player:
  assumes "lookup st c = Own a"
    and "\<forall>p\<in>set (players (heap st ! a)). id_p p \<noteq> playerId"
  shows "leaveSession sock c playerId st =
           (st, [SocketLeave sock c, SaveSessions (session_at st),
                 RoomEmit (Some c) (SessionUpdate (SessionObject (heap st ! a)))], Returned)"
proof -
  from assms(2)
  have "filter (\<lambda>p. id_p p \<noteq> playerId) (players (heap st ! a)) = players (heap st ! a)"
    by (simp add: filter_id_conv)
  then have "modify a (\<lambda>s. s\<lparr>players := filter (\<lambda>p. id_p p \<noteq> playerId) (players s)\<rparr>) st = st"
    by (simp add: modify_id)
  with assms(1) show ?thesis
    by (simp add: leaveSession_def Let_def broadcast_Own)
qed

theorem leave_unknown_player_witness:
  "lookup lobby_server ''ABC123'' = Own 0 \<and>
   ''pCyd'' \<notin> set (map id_p (players (heap lobby_server ! 0))) \<and>
   leaveSession 3 ''ABC123'' ''pCyd'' lobby_server =
     (lobby_server,
      [SocketLeave 3 ''ABC123'', SaveSessions (session_at lobby_server),
       RoomEmit (Some ''ABC123'') (SessionUpdate (SessionObject game1))], Returned)"
proof -
  have h1: "lookup lobby_server ''ABC123'' = Own 0"
    by (simp add: lookup_def lobby_server_def)
  have h2: "\<forall>p\<in>set (players (heap lobby_server ! 0)). id_p p \<noteq> ''pCyd''"
    by (simp add: lobby_server_def game1_def ann_def bob_def)
  have h3: "heap lobby_server ! 0 = game1"
    by (simp add: lobby_server_def)
  have h4: "''pCyd'' \<notin> set (map id_p (players (heap lobby_server ! 0)))"
    using h2 by auto
  from leave_unknown_player [OF h1 h2, where sock = 3] h1 h3 h4 show ?thesis by simp
qed

section \<open>The end-to-end example\<close>

text \<open>
  Create (Ann, \<^verbatim>\<open>Game1\<close>), join (Bob), start, then set Ann's score to 10: the run
  returns, and the store holds the session with both players, Ann's score 10, Bob's
  unchanged, and \<open>isActive\<close> true.
\<close>

lemma end_to_end_example:
  "session_at (fst (run [CreateSession 1 ''Ann'' ''Game1'' ''abc123'' ''pAnn'' 1000,
                         JoinSession 2 ''ABC123'' ''Bob'' ''pBob'',
                         StartSession 1 ''ABC123'',
                         UpdateScore 1 ''ABC123'' ''pAnn'' 10] empty_server)) ''ABC123'' =
     Some (game1\<lparr>players := [ann\<lparr>score := 10\<rparr>, bob], isActive := True\<rparr>)"
  by (simp add: createSession_eq toUpperCase_abc123 joinSession_def startSession_def
      broadcast_started_def updateScore_def broadcast_def lookup_def session_at_def
      bind_new_def modify_def set_data_def empty_server_def toPropertyKey_def value_of_def
      game1_def ann_def bob_def Let_def)

lemma end_to_end_example_returns:
  "snd (snd (run [CreateSession 1 ''Ann'' ''Game1'' ''abc123'' ''pAnn'' 1000,
                  JoinSession 2 ''ABC123'' ''Bob'' ''pBob'',
                  StartSession 1 ''ABC123'',
                  UpdateScore 1 ''ABC123'' ''pAnn'' 10] empty_server)) = Returned"
  by code_simp

end
